theory Spec2Isabelle
  imports Main
begin

section \<open>The library database of schema.sql\<close>

text \<open>
  The loan lifecycle is written twice, for two databases.

  schema.sql is a MySQL script. It defines the tables, their CHECK and FOREIGN KEY
  constraints, the triggers UpdateOverdueLoans and prevent_book_deletion, and the stored
  procedures ProcessLoan and ReturnBook. Statements on this database follow MySQL: CHECK
  constraints and triggers apply, and a SET list is evaluated from left to right.

  server/storage.ts (class DatabaseStorage) is written for PostgreSQL: every method that
  writes a loan ends its statement with \<open>.returning()\<close>, and renewLoan adds
  \<open>INTERVAL '14 days'\<close>. Its tables are those of shared/schema.ts, which have the columns
  of schema.sql and the two foreign keys of loans, and no CHECK constraint and no trigger.
  Statements on these tables follow standard SQL: every expression of a SET list reads
  the row as it is stored. The one statement of the storage layer that the database of
  schema.sql accepts as written is the plain DELETE of deleteBook.

  Both databases have the same tables, so one type of state serves both; an operation says
  which statements it runs.

  Modelling choices.
  \<^item> A DATE is the number of its day (an integer): DATEDIFF(a, b) is \<open>a - b\<close> and adding
    an interval of n days is \<open>+ n\<close>. Day 19732 is 2024-01-10 and day 19737 is 2024-01-15,
    counting from 1970-01-01 as day 0.
  \<^item> A DECIMAL(10,2) amount is its number of hundredths: the rate 0.50 is 50 and the
    fine 2.50 is 250.
  \<^item> CURDATE() and the storage layer's \<open>new Date()\<close> are the parameter \<open>today\<close>.
  \<^item> Columns that carry a DEFAULT (copy counts, statuses, renew_count, fine, is_active)
    hold a value, never NULL. Timestamps (created_at, updated_at) and the columns of
    books and users that no loan operation reads are left out.
  \<^item> The storage layer names columns by the properties of the tables in shared/schema.ts
    (userId is user_id, bookId is book_id, renewCount is renew_count, and so on).
\<close>

type_synonym date = int

datatype loan_status = Active | Returned | Overdue

datatype book_status = Available | Checked_out | Missing

datatype user_role = Patron | Staff

record user =
  is_active :: bool
  role :: user_role

record book =
  total_copies :: int
  available_copies :: int
  bstatus :: book_status

record loan =
  lid :: nat
  user_id :: string
  book_id :: nat
  loan_date :: date
  due_date :: date
  return_date :: "date option"
  renew_count :: int
  status :: loan_status
  fine :: int

text \<open>
  The tables users and books are read and written by primary key only, so they are maps
  from the key to the row. The table loans is counted and filtered, so it is the list of
  its rows, each with its id; \<open>auto_increment\<close> is the id the next INSERT receives
  (AUTO_INCREMENT in schema.sql, serial in shared/schema.ts).
\<close>

record db =
  users :: "string \<rightharpoonup> user"
  books :: "nat \<rightharpoonup> book"
  loans :: "loan list"
  auto_increment :: nat

text \<open>
  A statement that fails raises one of these. \<open>Signal\<close> is SIGNAL SQLSTATE '45000'
  with its MESSAGE_TEXT; \<open>Type_error\<close> is the TypeError JavaScript throws when a
  property of \<open>undefined\<close> is read; \<open>Nothing_to_set\<close> is the failure of an UPDATE
  whose SET list is empty.
\<close>

datatype sql_error =
    Signal string
  | Check_violated string
  | Foreign_key_violated string
  | Type_error
  | Nothing_to_set

text \<open>The typed failures of the specification are the messages the code raises.\<close>

definition BookUnavailable :: sql_error where
  "BookUnavailable = Signal ''Book not available for loan''"

definition PatronInactive :: sql_error where
  "PatronInactive = Signal ''User account is not active''"

definition PatronHasOverdueItems :: sql_error where
  "PatronHasOverdueItems = Signal ''User has overdue items''"

subsection \<open>Constraints and triggers\<close>

text \<open>
  books: CHECK (total_copies >= 0), CHECK (available_copies >= 0) and
  CONSTRAINT chk_copies CHECK (available_copies <= total_copies). MySQL enforces CHECK
  constraints from version 8.0.16 on, and README.md asks for MySQL 8.0 or higher.
\<close>

definition books_checks :: "book \<Rightarrow> bool" where
  "books_checks b \<longleftrightarrow>
     total_copies b \<ge> 0 \<and> available_copies b \<ge> 0 \<and> available_copies b \<le> total_copies b"

text \<open>loans: CHECK (renew_count <= 2).\<close>

definition loans_checks :: "loan \<Rightarrow> bool" where
  "loans_checks l \<longleftrightarrow> renew_count l \<le> 2"

text \<open>
  Trigger UpdateOverdueLoans, BEFORE UPDATE ON loans FOR EACH ROW: a row that would be
  stored as active with a due date before today is stored as overdue.
\<close>

definition UpdateOverdueLoans :: "date \<Rightarrow> loan \<Rightarrow> loan" where
  "UpdateOverdueLoans today new =
     (if status new = Active \<and> due_date new < today then new\<lparr>status := Overdue\<rparr> else new)"

subsection \<open>Statements on the database of schema.sql\<close>

text \<open>
  \<open>UPDATE books SET ... WHERE id = i\<close>. The new row must pass the CHECK constraints or
  the statement fails and changes nothing; no row with that id means no row is updated.
\<close>

definition update_books :: "(book \<Rightarrow> book) \<Rightarrow> nat \<Rightarrow> db \<Rightarrow> sql_error + db" where
  "update_books assign i d =
     (case books d i of
        None \<Rightarrow> Inr d
      | Some b \<Rightarrow>
          if books_checks (assign b) then Inr (d\<lparr>books := (books d)(i \<mapsto> assign b)\<rparr>)
          else Inl (Check_violated ''books''))"

text \<open>
  \<open>UPDATE loans SET ... WHERE id = i\<close>. The trigger UpdateOverdueLoans runs on each
  updated row before it is stored, then the CHECK constraint is tested.
\<close>

definition update_loans :: "date \<Rightarrow> (loan \<Rightarrow> loan) \<Rightarrow> nat \<Rightarrow> db \<Rightarrow> sql_error + db" where
  "update_loans today assign i d =
     (let rows = map (\<lambda>l. if lid l = i then UpdateOverdueLoans today (assign l) else l) (loans d)
      in if list_all loans_checks (filter (\<lambda>l. lid l = i) rows)
         then Inr (d\<lparr>loans := rows\<rparr>)
         else Inl (Check_violated ''loans''))"

text \<open>The rows an \<open>UPDATE loans ... WHERE id = i\<close> hands back through \<open>.returning()\<close>.\<close>

definition returning :: "nat \<Rightarrow> db \<Rightarrow> loan list" where
  "returning i d = filter (\<lambda>l. lid l = i) (loans d)"

text \<open>
  \<open>INSERT INTO loans\<close>. The row receives the next AUTO_INCREMENT id; its user and its
  book must exist (FOREIGN KEY) and it must pass the CHECK constraint. The inserted row
  is handed back with the new state.
\<close>

definition insert_loans :: "loan \<Rightarrow> db \<Rightarrow> sql_error + (db \<times> loan)" where
  "insert_loans vals d =
     (let row = vals\<lparr>lid := auto_increment d\<rparr>
      in if users d (user_id row) = None then Inl (Foreign_key_violated ''user_id'')
         else if books d (book_id row) = None then Inl (Foreign_key_violated ''book_id'')
         else if loans_checks row
         then Inr (d\<lparr>loans := loans d @ [row], auto_increment := Suc (auto_increment d)\<rparr>, row)
         else Inl (Check_violated ''loans''))"

text \<open>
  \<open>DELETE FROM books WHERE id = i\<close>. Trigger prevent_book_deletion, BEFORE DELETE ON
  books FOR EACH ROW, counts the loans of the row that are active or overdue and raises
  when there is one. When the row goes, the loans that reference it go with it
  (FOREIGN KEY (book_id) ... ON DELETE CASCADE).
\<close>

definition prevent_book_deletion :: "nat \<Rightarrow> db \<Rightarrow> sql_error option" where
  "prevent_book_deletion old_id d =
     (let loan_count =
        length (filter (\<lambda>l. book_id l = old_id \<and> (status l = Active \<or> status l = Overdue)) (loans d))
      in if loan_count > 0 then Some (Signal ''Cannot delete book with active loans'') else None)"

definition delete_books :: "nat \<Rightarrow> db \<Rightarrow> sql_error + db" where
  "delete_books i d =
     (case books d i of
        None \<Rightarrow> Inr d
      | Some old \<Rightarrow>
          (case prevent_book_deletion i d of
             Some e \<Rightarrow> Inl e
           | None \<Rightarrow>
               Inr (d\<lparr>books := (books d)(i := None),
                      loans := filter (\<lambda>l. book_id l \<noteq> i) (loans d)\<rparr>)))"

section \<open>The stored procedures of schema.sql\<close>

text \<open>
  MySQL evaluates the assignments of a single-table UPDATE from left to right, and an
  expression that names a column assigned earlier in the same SET list reads the value
  just assigned, not the stored one (MySQL Reference Manual, UPDATE Statement:
  \<open>UPDATE t1 SET col1 = col1 + 1, col2 = col1\<close> gives both columns the same value).
  The SET lists below are therefore sequences of assignments on the row.

  ProcessLoan:
  \<open>SET available_copies = available_copies - 1,
       status = CASE WHEN available_copies - 1 = 0 THEN 'checked_out' ELSE status END\<close>
\<close>

definition ProcessLoan_set :: "book \<Rightarrow> book" where
  "ProcessLoan_set b =
     (let b1 = b\<lparr>available_copies := available_copies b - 1\<rparr>
      in b1\<lparr>bstatus := (if available_copies b1 - 1 = 0 then Checked_out else bstatus b1)\<rparr>)"

text \<open>
  ReturnBook and DatabaseStorage.returnBook:
  \<open>SET available_copies = available_copies + 1, status = 'available'\<close>
  The second assignment is a constant, so the order of evaluation does not matter.
\<close>

definition return_set :: "book \<Rightarrow> book" where
  "return_set b = (b\<lparr>available_copies := available_copies b + 1\<rparr>)\<lparr>bstatus := Available\<rparr>"

text \<open>
  A procedure returns the state it leaves and its outcome. Its EXIT HANDLER FOR
  SQLEXCEPTION rolls the transaction back and resignals: on every error the state
  left is the state the procedure started in.

  ProcessLoan(p_user_id, p_book_id, p_loan_days). A SELECT ... INTO that finds no row
  leaves the variable at its declared default (0, FALSE).
\<close>

definition ProcessLoan :: "date \<Rightarrow> string \<Rightarrow> nat \<Rightarrow> int \<Rightarrow> db \<Rightarrow> db \<times> (sql_error + unit)" where
  "ProcessLoan today p_user_id p_book_id p_loan_days d =
     (let book_available = (case books d p_book_id of None \<Rightarrow> 0 | Some b \<Rightarrow> available_copies b);
          user_active = (case users d p_user_id of None \<Rightarrow> False | Some u \<Rightarrow> is_active u);
          user_overdue_count =
            length (filter (\<lambda>l. user_id l = p_user_id \<and> status l = Overdue) (loans d))
      in if book_available \<le> 0 then (d, Inl (Signal ''Book not available for loan''))
         else if \<not> user_active then (d, Inl (Signal ''User account is not active''))
         else if user_overdue_count > 0 then (d, Inl (Signal ''User has overdue items''))
         else
           (let new_due_date = today + p_loan_days
            in case insert_loans
                    \<lparr>lid = 0, user_id = p_user_id, book_id = p_book_id, loan_date = today,
                     due_date = new_due_date, return_date = None, renew_count = 0,
                     status = Active, fine = 0\<rparr> d of
                 Inl e \<Rightarrow> (d, Inl e)
               | Inr (d1, row) \<Rightarrow>
                   (case update_books ProcessLoan_set p_book_id d1 of
                      Inl e \<Rightarrow> (d, Inl e)
                    | Inr d2 \<Rightarrow> (d2, Inr ()))))"

text \<open>
  ReturnBook(p_loan_id, p_return_date). The loan is looked up with
  \<open>WHERE id = p_loan_id AND status = 'active'\<close>; when no row matches, v_book_id and
  v_due_date stay NULL, the comparison with NULL is not true, and the UPDATE of books
  matches no row. The UPDATE of loans has only \<open>WHERE id = p_loan_id\<close>.

  \<open>late_fine\<close> is v_fine after
  \<open>IF v_return_date > v_due_date THEN
       SET v_fine = DATEDIFF(v_return_date, v_due_date) * 0.50; END IF\<close>,
  starting from its default 0.00.
\<close>

definition late_fine :: "date \<Rightarrow> date option \<Rightarrow> int" where
  "late_fine v_return_date v_due_date =
     (case v_due_date of
        None \<Rightarrow> 0
      | Some due \<Rightarrow> if v_return_date > due then (v_return_date - due) * 50 else 0)"

definition ReturnBook :: "date \<Rightarrow> nat \<Rightarrow> date option \<Rightarrow> db \<Rightarrow> db \<times> (sql_error + unit)" where
  "ReturnBook today p_loan_id p_return_date d =
     (let v_return_date = (case p_return_date of None \<Rightarrow> today | Some r \<Rightarrow> r);
          found = find (\<lambda>l. lid l = p_loan_id \<and> status l = Active) (loans d);
          v_book_id = map_option book_id found;
          v_due_date = map_option due_date found;
          v_fine = late_fine v_return_date v_due_date
      in case update_loans today
                (\<lambda>l. l\<lparr>return_date := Some v_return_date, status := Returned, fine := v_fine\<rparr>)
                p_loan_id d of
           Inl e \<Rightarrow> (d, Inl e)
         | Inr d1 \<Rightarrow>
             (case (case v_book_id of None \<Rightarrow> Inr d1 | Some b \<Rightarrow> update_books return_set b d1) of
                Inl e \<Rightarrow> (d, Inl e)
              | Inr d2 \<Rightarrow> (d2, Inr ())))"

section \<open>The storage layer of server/storage.ts\<close>

subsection \<open>Statements on the tables of shared/schema.ts\<close>

text \<open>
  \<open>db.insert(loans).values(...).returning()\<close>. The row receives the next id; its user and
  its book must exist (\<open>.references(() => users.id)\<close>, \<open>.references(() => books.id)\<close>).
  No other constraint is declared. The inserted row is handed back with the new state.
\<close>

definition pg_insert_loans :: "loan \<Rightarrow> db \<Rightarrow> sql_error + (db \<times> loan)" where
  "pg_insert_loans vals d =
     (let row = vals\<lparr>lid := auto_increment d\<rparr>
      in if users d (user_id row) = None then Inl (Foreign_key_violated ''user_id'')
         else if books d (book_id row) = None then Inl (Foreign_key_violated ''book_id'')
         else Inr (d\<lparr>loans := loans d @ [row], auto_increment := Suc (auto_increment d)\<rparr>, row))"

text \<open>
  \<open>db.update(books).set(...).where(eq(books.id, i))\<close> and
  \<open>db.update(loans).set(...).where(eq(loans.id, i))\<close>: the rows with the id are
  overwritten; no constraint and no trigger stands in the way.
\<close>

definition pg_update_books :: "(book \<Rightarrow> book) \<Rightarrow> nat \<Rightarrow> db \<Rightarrow> db" where
  "pg_update_books assign i d =
     (case books d i of None \<Rightarrow> d | Some b \<Rightarrow> d\<lparr>books := (books d)(i \<mapsto> assign b)\<rparr>)"

definition pg_update_loans :: "(loan \<Rightarrow> loan) \<Rightarrow> nat \<Rightarrow> db \<Rightarrow> db" where
  "pg_update_loans assign i d =
     d\<lparr>loans := map (\<lambda>l. if lid l = i then assign l else l) (loans d)\<rparr>"

subsection \<open>The methods\<close>

text \<open>
  Every method of DatabaseStorage awaits its statements one after the other, outside any
  transaction: each statement is committed when it returns, and a statement that fails
  rejects the method's promise with the earlier statements already committed. A method
  therefore returns the state it leaves together with its outcome. A key of a
  \<open>.set({...})\<close> that is no property of the table (\<open>updatedAt\<close> for books and loans)
  sets no column.

  InsertLoan is the loans row without id and created_at; the columns with a default or
  that may be NULL are optional.
\<close>

record InsertLoan =
  userId :: string
  bookId :: nat
  loanDate :: date
  dueDate :: date
  returnDate :: "date option"
  renewCount :: "int option"
  loanStatus :: "loan_status option"
  loanFine :: "int option"

definition loan_values :: "InsertLoan \<Rightarrow> loan" where
  "loan_values v =
     \<lparr>lid = 0, user_id = userId v, book_id = bookId v, loan_date = loanDate v,
      due_date = dueDate v, return_date = returnDate v,
      renew_count = (case renewCount v of None \<Rightarrow> 0 | Some n \<Rightarrow> n),
      status = (case loanStatus v of None \<Rightarrow> Active | Some s \<Rightarrow> s),
      fine = (case loanFine v of None \<Rightarrow> 0 | Some f \<Rightarrow> f)\<rparr>"

text \<open>
  createLoan, the UPDATE of books:
  \<open>availableCopies: available_copies - 1,
    status: CASE WHEN available_copies - 1 = 0 THEN 'checked_out' ELSE 'available' END\<close>
  Both expressions read the stored row.
\<close>

definition createLoan_set :: "book \<Rightarrow> book" where
  "createLoan_set b =
     b\<lparr>available_copies := available_copies b - 1,
       bstatus := (if available_copies b - 1 = 0 then Checked_out else Available)\<rparr>"

definition createLoan :: "InsertLoan \<Rightarrow> db \<Rightarrow> db \<times> (sql_error + loan)" where
  "createLoan loan d =
     (case pg_insert_loans (loan_values loan) d of
        Inl e \<Rightarrow> (d, Inl e)
      | Inr (d1, newLoan) \<Rightarrow> (pg_update_books createLoan_set (bookId loan) d1, Inr newLoan))"

text \<open>
  updateLoan(id, Partial<InsertLoan>): every column the argument names is overwritten.
  When the argument names no column the UPDATE has nothing to set and fails. A new
  user_id or book_id must exist. The method hands back the first updated row, or
  \<open>undefined\<close> (None) when there is none.
\<close>

record PartialInsertLoan =
  setUserId :: "string option"
  setBookId :: "nat option"
  setLoanDate :: "date option"
  setDueDate :: "date option"
  setReturnDate :: "date option option"
  setRenewCount :: "int option"
  setStatus :: "loan_status option"
  setFine :: "int option"

definition names_no_column :: "PartialInsertLoan \<Rightarrow> bool" where
  "names_no_column p \<longleftrightarrow>
     setUserId p = None \<and> setBookId p = None \<and> setLoanDate p = None \<and> setDueDate p = None
     \<and> setReturnDate p = None \<and> setRenewCount p = None \<and> setStatus p = None \<and> setFine p = None"

definition updateLoan_set :: "PartialInsertLoan \<Rightarrow> loan \<Rightarrow> loan" where
  "updateLoan_set p l =
     l\<lparr>user_id := (case setUserId p of None \<Rightarrow> user_id l | Some v \<Rightarrow> v),
       book_id := (case setBookId p of None \<Rightarrow> book_id l | Some v \<Rightarrow> v),
       loan_date := (case setLoanDate p of None \<Rightarrow> loan_date l | Some v \<Rightarrow> v),
       due_date := (case setDueDate p of None \<Rightarrow> due_date l | Some v \<Rightarrow> v),
       return_date := (case setReturnDate p of None \<Rightarrow> return_date l | Some v \<Rightarrow> v),
       renew_count := (case setRenewCount p of None \<Rightarrow> renew_count l | Some v \<Rightarrow> v),
       status := (case setStatus p of None \<Rightarrow> status l | Some v \<Rightarrow> v),
       fine := (case setFine p of None \<Rightarrow> fine l | Some v \<Rightarrow> v)\<rparr>"

definition updateLoan :: "nat \<Rightarrow> PartialInsertLoan \<Rightarrow> db \<Rightarrow> db \<times> (sql_error + loan option)" where
  "updateLoan i p d =
     (if names_no_column p then (d, Inl Nothing_to_set)
      else if returning i d \<noteq> [] \<and> (case setUserId p of None \<Rightarrow> False | Some u \<Rightarrow> users d u = None)
      then (d, Inl (Foreign_key_violated ''user_id''))
      else if returning i d \<noteq> [] \<and> (case setBookId p of None \<Rightarrow> False | Some b \<Rightarrow> books d b = None)
      then (d, Inl (Foreign_key_violated ''book_id''))
      else (let d1 = pg_update_loans (updateLoan_set p) i d
            in (d1, Inr (case returning i d1 of [] \<Rightarrow> None | updatedLoan # _ \<Rightarrow> Some updatedLoan))))"

text \<open>
  returnBook(loanId): the UPDATE of loans has \<open>WHERE id = loanId\<close> only. When it
  updates no row, \<open>updatedLoan\<close> is undefined and reading \<open>updatedLoan.bookId\<close> throws.
\<close>

definition returnBook :: "date \<Rightarrow> nat \<Rightarrow> db \<Rightarrow> db \<times> (sql_error + loan)" where
  "returnBook today loanId d =
     (let d1 = pg_update_loans (\<lambda>l. l\<lparr>status := Returned, return_date := Some today\<rparr>) loanId d
      in case returning loanId d1 of
           [] \<Rightarrow> (d1, Inl Type_error)
         | updatedLoan # _ \<Rightarrow>
             (pg_update_books return_set (book_id updatedLoan) d1, Inr updatedLoan))"

text \<open>
  renewLoan(loanId):
  \<open>.set({ renewalCount: sql`${loans.renewalCount} + 1`,
           dueDate: sql`${loans.dueDate} + INTERVAL '14 days'`,
           updatedAt: new Date() })\<close>
  The table loans of shared/schema.ts has the properties id, userId, bookId, loanDate,
  dueDate, returnDate, renewCount, status, fine and createdAt. The keys \<open>renewalCount\<close>
  and \<open>updatedAt\<close> name none of them, so they set no column, as the key \<open>updatedAt\<close>
  sets none in the other updates of books and loans; the statement sets
  \<open>due_date = due_date + 14 days\<close> only. \<open>today\<close> is the \<open>new Date()\<close> of the key
  \<open>updatedAt\<close>: the method computes it and no column receives it.
\<close>

definition renewLoan_set :: "loan \<Rightarrow> loan" where
  "renewLoan_set l = l\<lparr>due_date := due_date l + 14\<rparr>"

definition renewLoan :: "date \<Rightarrow> nat \<Rightarrow> db \<Rightarrow> db \<times> (sql_error + loan option)" where
  "renewLoan today loanId d =
     (let d1 = pg_update_loans renewLoan_set loanId d
      in (d1, Inr (case returning loanId d1 of [] \<Rightarrow> None | updatedLoan # _ \<Rightarrow> Some updatedLoan)))"

text \<open>
  deleteBook(id) issues \<open>DELETE FROM books WHERE id = ?\<close> and nothing else; on the
  database of schema.sql the trigger prevent_book_deletion guards the statement.
\<close>

definition deleteBook :: "nat \<Rightarrow> db \<Rightarrow> db \<times> (sql_error + unit)" where
  "deleteBook i d = (case delete_books i d of Inl e \<Rightarrow> (d, Inl e) | Inr d1 \<Rightarrow> (d1, Inr ()))"

section \<open>The route handlers\<close>

text \<open>
  A handler answers with a status code and either a JSON body or a message; \<open>sub\<close> is
  the id of the authenticated user. getLoan hands back the first row with the id.
\<close>

datatype 'a response = Json nat 'a | Message nat string

definition getLoan :: "nat \<Rightarrow> db \<Rightarrow> loan option" where
  "getLoan i d = find (\<lambda>l. lid l = i) (loans d)"

text \<open>
  POST /api/loans/:id/renew. The handler tests \<open>loan.renewalCount >= 2\<close> on the object
  getLoan hands back. That object has the properties of the table loans in
  shared/schema.ts, where the renewal counter is \<open>renewCount\<close>: it has no property
  \<open>renewalCount\<close>, and reading it gives \<open>undefined\<close> (None). In JavaScript
  \<open>undefined >= 2\<close> is false.
\<close>

definition renewalCount :: "loan \<Rightarrow> int option" where
  "renewalCount loan = None"

definition js_ge :: "int option \<Rightarrow> int \<Rightarrow> bool" where
  "js_ge x n = (case x of None \<Rightarrow> False | Some v \<Rightarrow> v \<ge> n)"

definition RenewalLimitExceeded :: "'a response" where
  "RenewalLimitExceeded = Message 400 ''Maximum renewals reached''"

definition post_api_loans_renew :: "date \<Rightarrow> string \<Rightarrow> nat \<Rightarrow> db \<Rightarrow> db \<times> loan option response" where
  "post_api_loans_renew today sub i d =
     (case users d sub of
        None \<Rightarrow> (d, Message 404 ''User not found'')
      | Some user \<Rightarrow>
          (case getLoan i d of
             None \<Rightarrow> (d, Message 404 ''Loan not found'')
           | Some loan \<Rightarrow>
               if role user \<noteq> Staff \<and> user_id loan \<noteq> sub then (d, Message 403 ''Access denied'')
               else if js_ge (renewalCount loan) 2
               then (d, Message 400 ''Maximum renewals reached'')
               else (case renewLoan today i d of
                       (d1, Inl e) \<Rightarrow> (d1, Message 500 ''Failed to renew loan'')
                     | (d1, Inr updatedLoan) \<Rightarrow> (d1, Json 200 updatedLoan))))"

section \<open>Sequences of operations and invariants\<close>

text \<open>
  A call of a stored procedure on the database of schema.sql, and a call of a method of
  the storage layer on the tables of shared/schema.ts; each runs on the day \<open>today\<close>,
  and only the state it leaves is kept.
\<close>

datatype procedure_call =
    Call_ProcessLoan string nat int
  | Call_ReturnBook nat "date option"

datatype storage_call =
    Call_createLoan InsertLoan
  | Call_returnBook nat
  | Call_renewLoan nat

fun call_procedure :: "date \<Rightarrow> procedure_call \<Rightarrow> db \<Rightarrow> db" where
  "call_procedure today (Call_ProcessLoan u b n) d = fst (ProcessLoan today u b n d)"
| "call_procedure today (Call_ReturnBook i r) d = fst (ReturnBook today i r d)"

fun call_storage :: "date \<Rightarrow> storage_call \<Rightarrow> db \<Rightarrow> db" where
  "call_storage today (Call_createLoan v) d = fst (createLoan v d)"
| "call_storage today (Call_returnBook i) d = fst (returnBook today i d)"
| "call_storage today (Call_renewLoan i) d = fst (renewLoan today i d)"

fun run_procedures :: "(date \<times> procedure_call) list \<Rightarrow> db \<Rightarrow> db" where
  "run_procedures [] d = d"
| "run_procedures ((today, x) # xs) d = run_procedures xs (call_procedure today x d)"

fun run_storage :: "(date \<times> storage_call) list \<Rightarrow> db \<Rightarrow> db" where
  "run_storage [] d = d"
| "run_storage ((today, x) # xs) d = run_storage xs (call_storage today x d)"

text \<open>
  The inventory invariant: every stored book row has
  0 <= available_copies <= total_copies.
\<close>

definition inventory_ok :: "db \<Rightarrow> bool" where
  "inventory_ok d \<longleftrightarrow>
     (\<forall>i b. books d i = Some b \<longrightarrow> 0 \<le> available_copies b \<and> available_copies b \<le> total_copies b)"

text \<open>
  PRIMARY KEY and AUTO_INCREMENT of loans: the ids of the rows are distinct and below
  the next id to be handed out.
\<close>

definition loans_pk :: "db \<Rightarrow> bool" where
  "loans_pk d \<longleftrightarrow> distinct (map lid (loans d)) \<and> list_all (\<lambda>l. lid l < auto_increment d) (loans d)"

section \<open>A small library\<close>

text \<open>
  The state the concrete evaluations below start from, on 2024-01-15 (day 19737).
  Alice and Bob are active patrons. Book 1 has its single copy on the shelf; both copies
  of book 2 are out. Loan 1 (Bob, book 2) has renew_count 2, was due on 2024-01-10 and
  is stored as overdue; loan 2 (Alice, book 2) was due the same day and is still stored
  as active; loan 3 (Alice, book 1) was returned three days late in 2023 and carries a
  fine of 1.50.
\<close>

definition library :: db where
  "library =
     \<lparr>users = [''alice'' \<mapsto> \<lparr>is_active = True, role = Patron\<rparr>,
               ''bob'' \<mapsto> \<lparr>is_active = True, role = Patron\<rparr>],
      books = [1 \<mapsto> \<lparr>total_copies = 1, available_copies = 1, bstatus = Available\<rparr>,
               2 \<mapsto> \<lparr>total_copies = 2, available_copies = 0, bstatus = Checked_out\<rparr>],
      loans =
        [\<lparr>lid = 1, user_id = ''bob'', book_id = 2, loan_date = 19690, due_date = 19732,
          return_date = None, renew_count = 2, status = Overdue, fine = 0\<rparr>,
         \<lparr>lid = 2, user_id = ''alice'', book_id = 2, loan_date = 19718, due_date = 19732,
          return_date = None, renew_count = 0, status = Active, fine = 0\<rparr>,
         \<lparr>lid = 3, user_id = ''alice'', book_id = 1, loan_date = 19600, due_date = 19614,
          return_date = Some 19617, renew_count = 0, status = Returned, fine = 150\<rparr>],
      auto_increment = 4\<rparr>"

text \<open>A request to borrow book \<open>b\<close> for two weeks from 2024-01-15.\<close>

definition borrow :: "string \<Rightarrow> nat \<Rightarrow> InsertLoan" where
  "borrow u b =
     \<lparr>userId = u, bookId = b, loanDate = 19737, dueDate = 19751, returnDate = None,
      renewCount = None, loanStatus = None, loanFine = None\<rparr>"

text \<open>An updateLoan argument that names the status column only.\<close>

definition only_status :: "loan_status \<Rightarrow> PartialInsertLoan" where
  "only_status s =
     \<lparr>setUserId = None, setBookId = None, setLoanDate = None, setDueDate = None,
      setReturnDate = None, setRenewCount = None, setStatus = Some s, setFine = None\<rparr>"

section \<open>Facts about single statements\<close>

lemmas statement_defs =
  update_books_def update_loans_def insert_loans_def returning_def books_checks_def
  loans_checks_def UpdateOverdueLoans_def ProcessLoan_set_def return_set_def late_fine_def Let_def

lemmas storage_defs =
  pg_insert_loans_def pg_update_books_def pg_update_loans_def returning_def createLoan_set_def
  return_set_def renewLoan_set_def loan_values_def Let_def

lemmas library_defs = library_def borrow_def only_status_def getLoan_def

lemma update_books_inventory:
  assumes "inventory_ok d" and "update_books f i d = Inr d'"
  shows "inventory_ok d'"
  using assms
  by (auto simp: update_books_def inventory_ok_def books_checks_def split: option.splits if_splits)

lemma update_books_loans: "update_books f i d = Inr d' \<Longrightarrow> loans d' = loans d"
  by (auto simp: update_books_def split: option.splits if_splits)

lemma update_loans_books: "update_loans today f i d = Inr d' \<Longrightarrow> books d' = books d"
  by (auto simp: update_loans_def Let_def split: if_splits)

lemma insert_loans_books: "insert_loans v d = Inr (d', row) \<Longrightarrow> books d' = books d"
  by (auto simp: insert_loans_def Let_def split: if_splits)

lemma insert_loans_loans: "insert_loans v d = Inr (d', row) \<Longrightarrow> loans d' = loans d @ [row]"
  by (auto simp: insert_loans_def Let_def split: if_splits)

lemma inventory_ok_cong: "books d' = books d \<Longrightarrow> inventory_ok d' = inventory_ok d"
  by (simp add: inventory_ok_def)

lemma lid_UpdateOverdueLoans [simp]: "lid (UpdateOverdueLoans today l) = lid l"
  by (simp add: UpdateOverdueLoans_def)

text \<open>Rows with a fresh id: nothing stored carries the id yet.\<close>

lemma fresh_filter:
  "list_all (\<lambda>l. lid l < ai) ls \<Longrightarrow> filter (\<lambda>l. lid l = ai) ls = []"
  by (induction ls) auto

lemma fresh_find:
  "list_all (\<lambda>l. lid l < ai) ls \<Longrightarrow>
   find (\<lambda>l. lid l = ai \<and> P l) (ls @ [row]) = (if lid row = ai \<and> P row then Some row else None)"
  by (induction ls) auto

lemma fresh_map:
  "list_all (\<lambda>l. lid l < ai) ls \<Longrightarrow> map (\<lambda>l. if lid l = ai then f l else l) ls = ls"
  by (induction ls) auto

lemma update_loans_last:
  assumes "loans d = ls @ [row]" and "list_all (\<lambda>l. lid l < lid row) ls"
    and "status (f row) \<noteq> Active" and "renew_count (f row) \<le> 2" and "lid (f row) = lid row"
  shows "update_loans today f (lid row) d = Inr (d\<lparr>loans := ls @ [f row]\<rparr>)"
  using assms
  by (simp add: update_loans_def Let_def fresh_map fresh_filter loans_checks_def
      UpdateOverdueLoans_def)

text \<open>Rows under the primary key: at most one row carries an id.\<close>

lemma filter_lid_unique:
  "distinct (map lid ls) \<Longrightarrow> find (\<lambda>x. lid x = i) ls = Some l \<Longrightarrow> filter (\<lambda>x. lid x = i) ls = [l]"
proof (induction ls)
  case Nil
  then show ?case by simp
next
  case (Cons a ls)
  show ?case
  proof (cases "lid a = i")
    case True
    with Cons.prems have "a = l" by simp
    moreover from Cons.prems True have "filter (\<lambda>x. lid x = i) ls = []"
      by (auto simp: filter_empty_conv) (metis imageI)
    ultimately show ?thesis using True by simp
  next
    case False
    with Cons show ?thesis by simp
  qed
qed

lemma filter_map_lid:
  "(\<And>x. lid (h x) = lid x) \<Longrightarrow>
   filter (\<lambda>x. lid x = i) (map (\<lambda>x. if lid x = i then h x else x) ls)
     = map h (filter (\<lambda>x. lid x = i) ls)"
  by (induction ls) auto

lemma find_map_lid:
  "(\<And>x. lid (h x) = lid x) \<Longrightarrow>
   find (\<lambda>x. lid x = i) (map (\<lambda>x. if lid x = i then h x else x) ls)
     = map_option h (find (\<lambda>x. lid x = i) ls)"
  by (induction ls) auto

lemma find_active:
  "find (\<lambda>x. lid x = i) ls = Some l \<Longrightarrow> status l = Active \<Longrightarrow> distinct (map lid ls) \<Longrightarrow>
   find (\<lambda>x. lid x = i \<and> status x = Active) ls = Some l"
proof (induction ls)
  case Nil
  then show ?case by simp
next
  case (Cons a ls)
  then show ?case by (cases "lid a = i") auto
qed

lemma update_loans_unique:
  assumes pk: "distinct (map lid (loans d))" and l: "getLoan i d = Some l"
    and f: "\<And>x. lid (f x) = lid x"
  shows "update_loans today f i d =
     (if loans_checks (UpdateOverdueLoans today (f l))
      then Inr (d\<lparr>loans := map (\<lambda>x. if lid x = i then UpdateOverdueLoans today (f x) else x) (loans d)\<rparr>)
      else Inl (Check_violated ''loans''))"
proof -
  have "filter (\<lambda>x. lid x = i)
          (map (\<lambda>x. if lid x = i then UpdateOverdueLoans today (f x) else x) (loans d))
      = [UpdateOverdueLoans today (f l)]"
    using filter_lid_unique [OF pk l [unfolded getLoan_def]]
    by (simp add: filter_map_lid f)
  then show ?thesis
    by (simp add: update_loans_def Let_def)
qed

lemma update_loans_absent:
  assumes "getLoan i d = None"
  shows "update_loans today f i d = Inr d"
proof -
  from assms have none: "\<forall>x \<in> set (loans d). lid x \<noteq> i"
    by (simp add: getLoan_def find_None_iff)
  then have "map (\<lambda>x. if lid x = i then UpdateOverdueLoans today (f x) else x) (loans d) = loans d"
    by (simp add: map_idI)
  moreover from none have "filter (\<lambda>x. lid x = i) (loans d) = []"
    by (simp add: filter_empty_conv)
  ultimately show ?thesis
    by (simp add: update_loans_def Let_def)
qed

text \<open>A statement on the database of schema.sql fails by a CHECK constraint only.\<close>

lemma update_loans_error: "update_loans today f i d = Inl e \<Longrightarrow> e = Check_violated ''loans''"
  by (auto simp: update_loans_def Let_def split: if_splits)

lemma update_books_error: "update_books f i d = Inl e \<Longrightarrow> e = Check_violated ''books''"
  by (auto simp: update_books_def split: option.splits if_splits)

text \<open>Statements on the tables of shared/schema.ts.\<close>

lemma pg_update_books_other [simp]:
  "loans (pg_update_books f i d) = loans d"
  "users (pg_update_books f i d) = users d"
  "auto_increment (pg_update_books f i d) = auto_increment d"
  by (simp_all add: pg_update_books_def split: option.splits)

lemma pg_update_loans_other [simp]:
  "books (pg_update_loans f i d) = books d"
  "users (pg_update_loans f i d) = users d"
  "auto_increment (pg_update_loans f i d) = auto_increment d"
  by (simp_all add: pg_update_loans_def)

lemma find_filter_hd:
  "find P xs = Some x \<Longrightarrow> \<exists>rest. filter P xs = x # rest"
  by (induction xs) (auto split: if_splits)

section \<open>Creating a loan\<close>

subsection \<open>The procedure ProcessLoan\<close>

lemma ProcessLoan_success:
  assumes "ProcessLoan today u b n d = (d1, Inr ())"
  shows "\<exists>bk. books d b = Some bk \<and> 0 < available_copies bk \<and> books_checks (ProcessLoan_set bk)
     \<and> d1 = d\<lparr>loans := loans d @
           [\<lparr>lid = auto_increment d, user_id = u, book_id = b, loan_date = today,
             due_date = today + n, return_date = None, renew_count = 0, status = Active,
             fine = 0\<rparr>],
         auto_increment := Suc (auto_increment d),
         books := (books d)(b \<mapsto> ProcessLoan_set bk)\<rparr>"
  using assms
  by (auto simp: ProcessLoan_def Let_def insert_loans_def update_books_def loans_checks_def
      split: if_splits option.splits sum.splits prod.splits)



text \<open>
  The three checks of ProcessLoan, in the order the procedure makes them, and its effect
  when all pass. The stored book row passes the CHECK constraints, as every stored row
  does.
\<close>

lemma ProcessLoan_outcome:
  assumes bk: "books d b = Some bk" and chk: "books_checks bk" and usr: "users d u = Some usr"
  shows "ProcessLoan today u b n d =
     (if available_copies bk \<le> 0 then (d, Inl BookUnavailable)
      else if \<not> is_active usr then (d, Inl PatronInactive)
      else if filter (\<lambda>l. user_id l = u \<and> status l = Overdue) (loans d) \<noteq> []
      then (d, Inl PatronHasOverdueItems)
      else (d\<lparr>loans := loans d @
               [\<lparr>lid = auto_increment d, user_id = u, book_id = b, loan_date = today,
                 due_date = today + n, return_date = None, renew_count = 0, status = Active,
                 fine = 0\<rparr>],
             auto_increment := Suc (auto_increment d),
             books := (books d)(b \<mapsto> bk\<lparr>available_copies := available_copies bk - 1,
                 bstatus := (if available_copies bk = 2 then Checked_out else bstatus bk)\<rparr>)\<rparr>,
            Inr ()))"
  using assms
  by (auto simp: ProcessLoan_def Let_def insert_loans_def update_books_def loans_checks_def
      books_checks_def ProcessLoan_set_def BookUnavailable_def PatronInactive_def
      PatronHasOverdueItems_def)

lemma ProcessLoan_no_book:
  "books d b = None \<Longrightarrow> ProcessLoan today u b n d = (d, Inl BookUnavailable)"
  by (simp add: ProcessLoan_def BookUnavailable_def)

lemma ProcessLoan_no_user:
  "books d b = Some bk \<Longrightarrow> 0 < available_copies bk \<Longrightarrow> users d u = None \<Longrightarrow>
   ProcessLoan today u b n d = (d, Inl PatronInactive)"
  by (simp add: ProcessLoan_def PatronInactive_def)

lemma ProcessLoan_sold_out:
  "books d b = Some bk \<Longrightarrow> available_copies bk = 0 \<Longrightarrow>
   ProcessLoan today u b n d = (d, Inl BookUnavailable)"
  by (simp add: ProcessLoan_def BookUnavailable_def)

subsection \<open>DatabaseStorage.createLoan\<close>

lemma createLoan_success:
  assumes "createLoan v d = (d1, Inr newLoan)"
  shows "\<exists>bk. books d (bookId v) = Some bk
     \<and> newLoan = (loan_values v)\<lparr>lid := auto_increment d\<rparr>
     \<and> d1 = d\<lparr>loans := loans d @ [newLoan],
         auto_increment := Suc (auto_increment d),
         books := (books d)(bookId v \<mapsto> createLoan_set bk)\<rparr>"
  using assms
  by (auto simp: createLoan_def Let_def pg_insert_loans_def pg_update_books_def loan_values_def
      split: if_splits option.splits sum.splits prod.splits)

lemma createLoan_failure_changes_nothing:
  "createLoan v d = (d', Inl e) \<Longrightarrow> d' = d"
  by (auto simp: createLoan_def split: sum.splits prod.splits)




text \<open>
  C2. The claim: createLoan succeeds exactly when the book has a copy, the patron is
  active and the patron has no overdue loan, fails with the matching error otherwise, and
  on a book with no copy left fails with BookUnavailable and writes nothing. ProcessLoan
  does that (\<open>ProcessLoan_outcome\<close>, \<open>ProcessLoan_sold_out\<close>). DatabaseStorage.createLoan
  checks nothing (\<open>createLoan_succeeds_iff\<close>). In the library Bob has the overdue loan 1:
  createLoan gives him book 1, where ProcessLoan refuses with PatronHasOverdueItems. No
  copy of book 2 is left: createLoan gives it to Alice and stores available_copies -1,
  where ProcessLoan refuses with BookUnavailable.
\<close>

theorem createLoan_checks_nothing:
  "snd (createLoan (borrow ''bob'' 1) library) =
     Inr \<lparr>lid = 4, user_id = ''bob'', book_id = 1, loan_date = 19737, due_date = 19751,
          return_date = None, renew_count = 0, status = Active, fine = 0\<rparr>
   \<and> loans (fst (createLoan (borrow ''bob'' 1) library)) = loans library @
       [\<lparr>lid = 4, user_id = ''bob'', book_id = 1, loan_date = 19737, due_date = 19751,
         return_date = None, renew_count = 0, status = Active, fine = 0\<rparr>]
   \<and> map_option available_copies (books (fst (createLoan (borrow ''bob'' 1) library)) 1) = Some 0
   \<and> ProcessLoan 19737 ''bob'' 1 14 library = (library, Inl PatronHasOverdueItems)
   \<and> snd (createLoan (borrow ''alice'' 2) library) =
     Inr \<lparr>lid = 4, user_id = ''alice'', book_id = 2, loan_date = 19737, due_date = 19751,
          return_date = None, renew_count = 0, status = Active, fine = 0\<rparr>
   \<and> map_option available_copies (books library 2) = Some 0
   \<and> map_option available_copies (books (fst (createLoan (borrow ''alice'' 2) library)) 2)
       = Some (- 1)
   \<and> ProcessLoan 19737 ''alice'' 2 14 library = (library, Inl BookUnavailable)"
  by (simp add: createLoan_def ProcessLoan_def PatronHasOverdueItems_def BookUnavailable_def
      statement_defs storage_defs library_defs)

text \<open>
  The status ProcessLoan stores, in terms of the count before the statement: checked_out
  when two copies were available, that is when one is left, and the old status otherwise.
\<close>

lemma ProcessLoan_set_status:
  "bstatus (ProcessLoan_set b) = (if available_copies b = 2 then Checked_out else bstatus b)"
  by (simp add: ProcessLoan_set_def Let_def)

text \<open>The status DatabaseStorage.createLoan stores agrees with the count it stores.\<close>

lemma createLoan_set_status:
  "bstatus (createLoan_set b)
     = (if available_copies (createLoan_set b) = 0 then Checked_out else Available)"
  by (simp add: createLoan_set_def)

text \<open>
  The statement of the two return operations stores available, and a row that passes the
  CHECK constraints before it has at least one copy available after it.
\<close>

lemma return_set_status:
  "books_checks b \<Longrightarrow> bstatus (return_set b) = Available \<and> 0 < available_copies (return_set b)"
  by (simp add: return_set_def books_checks_def)

text \<open>
  C7. The claim: after createLoan the book's status is checked_out exactly when its
  available_copies is 0, and available otherwise. The UPDATE of ProcessLoan assigns
  available_copies first and then computes the status from \<open>available_copies - 1\<close>,
  which by then reads the decremented count: the status becomes checked_out when one
  copy is still left, and is not set when the last copy goes. In the library Alice
  borrows the only copy of book 1 through ProcessLoan: the book ends with no copy
  available and the status available. DatabaseStorage.createLoan stores the status the
  claim asks for (\<open>createLoan_set_status\<close>).
\<close>

theorem last_copy_leaves_status_available:
  "books (fst (ProcessLoan 19737 ''alice'' 1 14 library)) 1 =
     Some \<lparr>total_copies = 1, available_copies = 0, bstatus = Available\<rparr>
   \<and> snd (ProcessLoan 19737 ''alice'' 1 14 library) = Inr ()"
  by (simp add: ProcessLoan_def statement_defs library_defs)

section \<open>Returning a loan\<close>

lemma late_fine_policy:
  "late_fine rd (Some due) = (if rd > due then (rd - due) * 50 else 0)"
  by (simp add: late_fine_def)

lemma ReturnBook_found:
  assumes "find (\<lambda>l. lid l = i \<and> status l = Active) (loans d) = Some l"
    and "update_loans today
           (\<lambda>x. x\<lparr>return_date := Some (case r of None \<Rightarrow> today | Some x \<Rightarrow> x),
                  status := Returned,
                  fine := late_fine (case r of None \<Rightarrow> today | Some x \<Rightarrow> x) (Some (due_date l))\<rparr>)
           i d = Inr d1"
    and "update_books return_set (book_id l) d1 = Inr d2"
  shows "ReturnBook today i r d = (d2, Inr ())"
  using assms by (simp add: ReturnBook_def Let_def)

lemma ReturnBook_absent:
  assumes "getLoan i d = None"
  shows "ReturnBook today i r d = (d, Inr ())"
proof -
  from assms have "\<forall>x \<in> set (loans d). lid x \<noteq> i"
    by (simp add: getLoan_def find_None_iff)
  then have "find (\<lambda>l. lid l = i \<and> status l = Active) (loans d) = None"
    by (auto simp: find_None_iff)
  then show ?thesis
    by (simp add: ReturnBook_def Let_def update_loans_absent [OF assms])
qed

lemma ReturnBook_active:
  assumes pk: "loans_pk d" and l: "getLoan i d = Some l" and act: "status l = Active"
    and chk: "loans_checks l"
    and bk: "books d (book_id l) = Some b"
    and room: "0 \<le> available_copies b" "available_copies b < total_copies b"
  shows "\<exists>d'. ReturnBook today i r d = (d', Inr ())
      \<and> getLoan i d' =
          Some (l\<lparr>return_date := Some (case r of None \<Rightarrow> today | Some x \<Rightarrow> x),
                 status := Returned,
                 fine := late_fine (case r of None \<Rightarrow> today | Some x \<Rightarrow> x) (Some (due_date l))\<rparr>)
      \<and> books d' = (books d)(book_id l \<mapsto>
          b\<lparr>available_copies := available_copies b + 1, bstatus := Available\<rparr>)"
proof -
  from pk have dist: "distinct (map lid (loans d))" by (simp add: loans_pk_def)
  define g where "g = (\<lambda>x::loan. x\<lparr>return_date := Some (case r of None \<Rightarrow> today | Some x \<Rightarrow> x),
      status := Returned,
      fine := late_fine (case r of None \<Rightarrow> today | Some x \<Rightarrow> x) (Some (due_date l))\<rparr>)"
  have keep: "\<And>x. lid (g x) = lid x" by (simp add: g_def)
  have trig: "UpdateOverdueLoans today (g l) = g l"
    by (simp add: UpdateOverdueLoans_def g_def)
  have ok: "loans_checks (g l)" using chk by (simp add: loans_checks_def g_def)
  define d1 where
    "d1 = d\<lparr>loans := map (\<lambda>x. if lid x = i then UpdateOverdueLoans today (g x) else x) (loans d)\<rparr>"
  have found: "find (\<lambda>x. lid x = i \<and> status x = Active) (loans d) = Some l"
    using l act dist by (simp add: getLoan_def find_active)
  have upd: "update_loans today g i d = Inr d1"
    using ok by (simp add: update_loans_unique [OF dist l keep] trig d1_def)
  have fits: "books_checks (return_set b)"
    using room by (simp add: books_checks_def return_set_def)
  define d2 where "d2 = d1\<lparr>books := (books d)(book_id l \<mapsto> return_set b)\<rparr>"
  have inc: "update_books return_set (book_id l) d1 = Inr d2"
    using fits bk by (simp add: update_books_def d1_def d2_def)
  have "ReturnBook today i r d = (d2, Inr ())"
    using found upd inc unfolding g_def by (rule ReturnBook_found)
  moreover have "getLoan i d2 = Some (g l)"
    using l by (simp add: d2_def d1_def getLoan_def find_map_lid keep trig)
  moreover have "books d2 = (books d)(book_id l \<mapsto>
      b\<lparr>available_copies := available_copies b + 1, bstatus := Available\<rparr>)"
    by (simp add: d2_def return_set_def)
  ultimately show ?thesis unfolding g_def by blast
qed

text \<open>
  C3. The claim: the fine recorded on return is 0.50 per whole day late, and it is charged
  whenever the due date has passed, whether the loan is stored as active or as overdue.
  ReturnBook charges it for a loan stored as active (\<open>ReturnBook_active\<close> with
  \<open>late_fine_policy\<close>): loan 2, due 2024-01-10 and returned 2024-01-15, gets 2.50. It
  looks the loan up with \<open>status = 'active'\<close>, so for loan 1, due and returned on the same
  days but stored as overdue, it finds no due date: the loan is marked returned with
  fine 0 and book 2 does not get its copy back.
\<close>

theorem ReturnBook_charges_no_fine_on_overdue_loan:
  "getLoan 1 (fst (ReturnBook 19737 1 (Some 19737) library)) =
     Some \<lparr>lid = 1, user_id = ''bob'', book_id = 2, loan_date = 19690, due_date = 19732,
           return_date = Some 19737, renew_count = 2, status = Returned, fine = 0\<rparr>
   \<and> books (fst (ReturnBook 19737 1 (Some 19737) library)) 2 = books library 2
   \<and> snd (ReturnBook 19737 1 (Some 19737) library) = Inr ()
   \<and> getLoan 2 (fst (ReturnBook 19737 2 (Some 19737) library)) =
     Some \<lparr>lid = 2, user_id = ''alice'', book_id = 2, loan_date = 19718, due_date = 19732,
           return_date = Some 19737, renew_count = 0, status = Returned, fine = 250\<rparr>"
  by (simp add: ReturnBook_def statement_defs library_defs)

text \<open>
  C5. The claim: returnLoan fails with LoanNotActive whenever the loan does not exist or
  its status is neither active nor overdue, and then modifies no row; it succeeds exactly
  when the loan exists with status active or overdue.
  ReturnBook raises nothing of its own. For loan 99, which does not exist, it completes
  and changes nothing; for loan 3, already returned, it completes and overwrites the
  return date and the fine; for loan 1, stored as overdue, it completes without giving
  the copy back to book 2.
\<close>

theorem ReturnBook_never_refuses_counterexample:
  "ReturnBook 19737 99 None library = (library, Inr ())
   \<and> snd (ReturnBook 19737 3 None library) = Inr ()
   \<and> getLoan 3 library =
     Some \<lparr>lid = 3, user_id = ''alice'', book_id = 1, loan_date = 19600, due_date = 19614,
           return_date = Some 19617, renew_count = 0, status = Returned, fine = 150\<rparr>
   \<and> getLoan 3 (fst (ReturnBook 19737 3 None library)) =
     Some \<lparr>lid = 3, user_id = ''alice'', book_id = 1, loan_date = 19600, due_date = 19614,
           return_date = Some 19737, renew_count = 0, status = Returned, fine = 0\<rparr>
   \<and> snd (ReturnBook 19737 1 None library) = Inr ()
   \<and> books (fst (ReturnBook 19737 1 None library)) 2 = books library 2"
  by (simp add: ReturnBook_def statement_defs library_defs)

lemma ReturnBook_outcomes:
  "snd (ReturnBook today i r d)
     \<in> {Inr (), Inl (Check_violated ''loans''), Inl (Check_violated ''books'')}"
  by (auto simp: ReturnBook_def Let_def split: sum.splits option.splits
      dest: update_loans_error update_books_error)

lemma ReturnBook_not_active:
  assumes pk: "loans_pk d" and l: "getLoan i d = Some l" and act: "status l \<noteq> Active"
    and chk: "loans_checks l"
  shows "snd (ReturnBook today i r d) = Inr ()"
proof -
  from pk have dist: "distinct (map lid (loans d))" by (simp add: loans_pk_def)
  from filter_lid_unique [OF dist l [unfolded getLoan_def]]
  have only: "filter (\<lambda>x. lid x = i) (loans d) = [l]" .
  have "x \<in> set (loans d) \<Longrightarrow> lid x = i \<Longrightarrow> x = l" for x
  proof -
    assume "x \<in> set (loans d)" and "lid x = i"
    then have "x \<in> set (filter (\<lambda>x. lid x = i) (loans d))" by simp
    then show "x = l" by (simp add: only)
  qed
  with act have none: "find (\<lambda>x. lid x = i \<and> status x = Active) (loans d) = None"
    by (auto simp: find_None_iff)
  define g where "g = (\<lambda>x::loan. x\<lparr>return_date := Some (case r of None \<Rightarrow> today | Some x \<Rightarrow> x),
      status := Returned,
      fine := late_fine (case r of None \<Rightarrow> today | Some x \<Rightarrow> x) None\<rparr>)"
  have keep: "\<And>x. lid (g x) = lid x" by (simp add: g_def)
  have ok: "loans_checks (UpdateOverdueLoans today (g l))"
    using chk by (simp add: loans_checks_def UpdateOverdueLoans_def g_def)
  show ?thesis
    using ok
    by (simp add: ReturnBook_def Let_def none update_loans_unique [OF dist l keep]
        g_def [symmetric])
qed

text \<open>
  C5, as amended. returnLoan (the procedure ReturnBook) raises no LoanNotActive error,
  whatever the loan: it raises no error of its own and fails only when a CHECK constraint
  refuses a row. Called for a loan that does not exist, it completes and modifies no Loan
  or Book row. On a database that satisfies its constraints, it completes for a loan
  that exists with another status than active; and called for a loan that exists with
  status active, whose book has a copy out, it succeeds: the loan gets status returned,
  the return date and the fine, and the book's available_copies goes up by one.
\<close>

theorem ReturnBook_effect:
  assumes "loans_pk d"
  shows "(\<forall>m. snd (ReturnBook today i r d) \<noteq> Inl (Signal m))
       \<and> snd (ReturnBook today i r d)
           \<in> {Inr (), Inl (Check_violated ''loans''), Inl (Check_violated ''books'')}
       \<and> (getLoan i d = None \<longrightarrow> ReturnBook today i r d = (d, Inr ()))
       \<and> (getLoan i d = Some l \<and> status l \<noteq> Active \<and> loans_checks l \<longrightarrow>
            snd (ReturnBook today i r d) = Inr ())
       \<and> (getLoan i d = Some l \<and> status l = Active \<and> loans_checks l
            \<and> books d (book_id l) = Some b
            \<and> 0 \<le> available_copies b \<and> available_copies b < total_copies b \<longrightarrow>
          (\<exists>d'. ReturnBook today i r d = (d', Inr ())
             \<and> getLoan i d' =
                 Some (l\<lparr>return_date := Some (case r of None \<Rightarrow> today | Some x \<Rightarrow> x),
                        status := Returned,
                        fine := late_fine (case r of None \<Rightarrow> today | Some x \<Rightarrow> x)
                                  (Some (due_date l))\<rparr>)
             \<and> books d' = (books d)(book_id l \<mapsto>
                 b\<lparr>available_copies := available_copies b + 1, bstatus := Available\<rparr>)))"
proof -
  have "\<forall>m. snd (ReturnBook today i r d) \<noteq> Inl (Signal m)"
    using ReturnBook_outcomes [of today i r d] by auto
  with assms ReturnBook_outcomes ReturnBook_absent ReturnBook_not_active ReturnBook_active
  show ?thesis by blast
qed

lemma library_pk: "loans_pk library"
  by (simp add: loans_pk_def library_def)

lemma library_inventory: "inventory_ok library"
  by (simp add: inventory_ok_def library_def)

text \<open>
  In the library loan 99 does not exist, loan 1 is stored as overdue, and Alice's loan 2
  is active and five days late.
\<close>

theorem ReturnBook_effect_witness:
  "loans_pk library \<and> getLoan 99 library = None
   \<and> ReturnBook 19737 99 None library = (library, Inr ())
   \<and> snd (ReturnBook 19737 99 None library) \<noteq> Inl (Signal ''Loan is not active'')
   \<and> map_option status (getLoan 1 library) = Some Overdue
   \<and> snd (ReturnBook 19737 1 None library) = Inr ()
   \<and> getLoan 2 library =
       Some \<lparr>lid = 2, user_id = ''alice'', book_id = 2, loan_date = 19718, due_date = 19732,
             return_date = None, renew_count = 0, status = Active, fine = 0\<rparr>
   \<and> books library 2 = Some \<lparr>total_copies = 2, available_copies = 0, bstatus = Checked_out\<rparr>
   \<and> (\<exists>d'. ReturnBook 19737 2 (Some 19737) library = (d', Inr ())
         \<and> getLoan 2 d' =
             Some \<lparr>lid = 2, user_id = ''alice'', book_id = 2, loan_date = 19718, due_date = 19732,
                   return_date = Some 19737, renew_count = 0, status = Returned, fine = 250\<rparr>
         \<and> books d' 2 = Some \<lparr>total_copies = 2, available_copies = 1, bstatus = Available\<rparr>)"
proof -
  have none: "getLoan 99 library = None" by (simp add: library_defs)
  have l1: "getLoan 1 library =
       Some \<lparr>lid = 1, user_id = ''bob'', book_id = 2, loan_date = 19690, due_date = 19732,
             return_date = None, renew_count = 2, status = Overdue, fine = 0\<rparr>"
    by (simp add: library_defs)
  have l2: "getLoan 2 library =
       Some \<lparr>lid = 2, user_id = ''alice'', book_id = 2, loan_date = 19718, due_date = 19732,
             return_date = None, renew_count = 0, status = Active, fine = 0\<rparr>"
    by (simp add: library_defs)
  have b2: "books library 2 = Some \<lparr>total_copies = 2, available_copies = 0, bstatus = Checked_out\<rparr>"
    by (simp add: library_def)
  from ReturnBook_effect [OF library_pk, of 19737 99 None] none
  have absent: "ReturnBook 19737 99 None library = (library, Inr ())"
    and quiet: "snd (ReturnBook 19737 99 None library) \<noteq> Inl (Signal ''Loan is not active'')"
    by blast+
  from ReturnBook_effect [OF library_pk, of 19737 1 None
      "\<lparr>lid = 1, user_id = ''bob'', book_id = 2, loan_date = 19690, due_date = 19732,
             return_date = None, renew_count = 2, status = Overdue, fine = 0\<rparr>"] l1
  have overdue: "snd (ReturnBook 19737 1 None library) = Inr ()"
    by (simp add: loans_checks_def)
  have st: "map_option status (getLoan 1 library) = Some Overdue"
    unfolding l1 by simp
  from ReturnBook_effect [OF library_pk, of 19737 2 "Some 19737"
      "\<lparr>lid = 2, user_id = ''alice'', book_id = 2, loan_date = 19718, due_date = 19732,
             return_date = None, renew_count = 0, status = Active, fine = 0\<rparr>"
      "\<lparr>total_copies = 2, available_copies = 0, bstatus = Checked_out\<rparr>"] l2 b2
  have "\<exists>d'. ReturnBook 19737 2 (Some 19737) library = (d', Inr ())
         \<and> getLoan 2 d' =
             Some \<lparr>lid = 2, user_id = ''alice'', book_id = 2, loan_date = 19718, due_date = 19732,
                   return_date = Some 19737, renew_count = 0, status = Returned, fine = 250\<rparr>
         \<and> books d' 2 = Some \<lparr>total_copies = 2, available_copies = 1, bstatus = Available\<rparr>"
    by (simp add: loans_checks_def late_fine_def) (metis fun_upd_same)
  with library_pk none absent quiet st overdue l2 b2 show ?thesis by blast
qed

section \<open>Renewing a loan\<close>

lemma renewal_limit_is_never_reached: "js_ge (renewalCount loan) 2 = False"
  by (simp add: js_ge_def renewalCount_def)

lemma renewLoan_set_columns:
  "renew_count (renewLoan_set l) = renew_count l"
  "due_date (renewLoan_set l) = due_date l + 14"
  "lid (renewLoan_set l) = lid l"
  by (simp_all add: renewLoan_set_def)

text \<open>
  What the handler does for a request that reaches the renewal check (the user exists,
  the loan exists, and the user is staff or owns the loan): it never refuses, the due date
  of the loan moves 14 days on from its stored value, and renew_count stays as it was.
\<close>

lemma post_api_loans_renew_effect:
  assumes user: "users d sub = Some u" and l: "getLoan i d = Some l"
    and allowed: "role u = Staff \<or> user_id l = sub"
  shows "\<exists>d' l'. post_api_loans_renew today sub i d = (d', Json 200 (Some l'))
           \<and> getLoan i d' = Some l'
           \<and> renew_count l' = renew_count l
           \<and> due_date l' = due_date l + 14"
proof -
  define d' where "d' = pg_update_loans renewLoan_set i d"
  have got: "getLoan i d' = Some (renewLoan_set l)"
    using l by (simp add: d'_def pg_update_loans_def getLoan_def find_map_lid renewLoan_set_columns)
  from find_filter_hd [OF l [unfolded getLoan_def]] obtain rest where
    "filter (\<lambda>x. lid x = i) (loans d) = l # rest" by blast
  then have ret: "returning i d' = renewLoan_set l # map renewLoan_set rest"
    by (simp add: returning_def d'_def pg_update_loans_def filter_map_lid renewLoan_set_columns)
  have "renewLoan today i d = (d', Inr (Some (renewLoan_set l)))"
    by (simp add: renewLoan_def Let_def d'_def [symmetric] ret)
  then have "post_api_loans_renew today sub i d = (d', Json 200 (Some (renewLoan_set l)))"
    using user l allowed
    by (auto simp: post_api_loans_renew_def renewal_limit_is_never_reached)
  with got show ?thesis by (auto simp: renewLoan_set_columns)
qed

text \<open>
  C4. The claim: renewLoan fails with RenewalLimitExceeded and leaves due_date and
  renewal_count unchanged when renewal_count >= 2, and otherwise adds exactly 1 to
  renewal_count and exactly 14 days to the stored due_date. The code is written to do
  that, through a property renewalCount that the table loans does not have. In the
  library Bob's loan 1 has renew_count 2: his request is answered 200 all the same and
  the due date moves from 2024-01-10 (day 19732) to 2024-01-24 (day 19746). Alice's loan 2
  has renew_count 0: her request moves the due date the same way and leaves renew_count
  at 0.
\<close>

theorem renewal_limit_is_not_enforced:
  "post_api_loans_renew 19737 ''bob'' 1 library =
     (library\<lparr>loans := (loans library)
          [0 := \<lparr>lid = 1, user_id = ''bob'', book_id = 2, loan_date = 19690, due_date = 19746,
                 return_date = None, renew_count = 2, status = Overdue, fine = 0\<rparr>]\<rparr>,
      Json 200 (Some \<lparr>lid = 1, user_id = ''bob'', book_id = 2, loan_date = 19690,
                       due_date = 19746, return_date = None, renew_count = 2,
                       status = Overdue, fine = 0\<rparr>))
   \<and> post_api_loans_renew 19737 ''alice'' 2 library =
     (library\<lparr>loans := (loans library)
          [1 := \<lparr>lid = 2, user_id = ''alice'', book_id = 2, loan_date = 19718, due_date = 19746,
                 return_date = None, renew_count = 0, status = Active, fine = 0\<rparr>]\<rparr>,
      Json 200 (Some \<lparr>lid = 2, user_id = ''alice'', book_id = 2, loan_date = 19718,
                       due_date = 19746, return_date = None, renew_count = 0,
                       status = Active, fine = 0\<rparr>))"
  by (simp add: post_api_loans_renew_def renewLoan_def js_ge_def renewalCount_def
      storage_defs library_defs)

section \<open>The inventory invariant\<close>

text \<open>The stored procedures keep the invariant: the CHECK constraints see to it.\<close>

lemma ProcessLoan_inventory: "inventory_ok d \<Longrightarrow> inventory_ok (fst (ProcessLoan today u b n d))"
  by (auto simp: ProcessLoan_def Let_def inventory_ok_cong [OF insert_loans_books]
      split: sum.splits prod.splits dest: update_books_inventory [rotated])

lemma ReturnBook_inventory: "inventory_ok d \<Longrightarrow> inventory_ok (fst (ReturnBook today i r d))"
  by (auto simp: ReturnBook_def Let_def inventory_ok_cong [OF update_loans_books]
      split: sum.splits prod.splits option.splits dest: update_books_inventory [rotated])

lemma call_procedure_inventory: "inventory_ok d \<Longrightarrow> inventory_ok (call_procedure today x d)"
  by (cases x) (simp_all add: ProcessLoan_inventory ReturnBook_inventory)

lemma run_procedures_inventory: "inventory_ok d \<Longrightarrow> inventory_ok (run_procedures ps d)"
proof (induction ps arbitrary: d)
  case Nil
  then show ?case by simp
next
  case (Cons a ps)
  obtain today x where a: "a = (today, x)" by (cases a)
  from Cons.prems have "inventory_ok (call_procedure today x d)" by (rule call_procedure_inventory)
  then have "inventory_ok (run_procedures ps (call_procedure today x d))" by (rule Cons.IH)
  then show ?case by (simp add: a)
qed

text \<open>
  C6. The claim: for every book, 0 <= available_copies <= total_copies after every
  sequence of createLoan, returnLoan and renewLoan operations. The stored procedures keep
  it (\<open>run_procedures_inventory\<close>): ProcessLoan refuses a book without a copy, and the
  CHECK constraints of schema.sql refuse every row outside the bounds. The storage layer
  has neither guard. In the library no copy of book 2 is left, and createLoan stores
  available_copies -1 for it; loan 3 on book 1 is already returned, and returnBook
  stores 2 available copies of 1; two createLoan calls for the single copy of book 1
  leave -1.
\<close>

theorem storage_layer_breaks_inventory:
  "books library 2 = Some \<lparr>total_copies = 2, available_copies = 0, bstatus = Checked_out\<rparr>
   \<and> books (fst (createLoan (borrow ''alice'' 2) library)) 2
       = Some \<lparr>total_copies = 2, available_copies = - 1, bstatus = Available\<rparr>
   \<and> books library 1 = Some \<lparr>total_copies = 1, available_copies = 1, bstatus = Available\<rparr>
   \<and> map_option status (getLoan 3 library) = Some Returned
   \<and> books (fst (returnBook 19737 3 library)) 1
       = Some \<lparr>total_copies = 1, available_copies = 2, bstatus = Available\<rparr>
   \<and> books (run_storage [(19737, Call_createLoan (borrow ''alice'' 1)),
                          (19737, Call_createLoan (borrow ''bob'' 1))] library) 1
       = Some \<lparr>total_copies = 1, available_copies = - 1, bstatus = Available\<rparr>"
  by (simp add: createLoan_def returnBook_def storage_defs library_defs)

section \<open>The primary key of loans is kept\<close>

lemma loans_pk_ids:
  "loans_pk d \<longleftrightarrow>
     distinct (map lid (loans d)) \<and> (\<forall>k \<in> set (map lid (loans d)). k < auto_increment d)"
  by (auto simp: loans_pk_def list_all_iff)

lemma update_loans_pk:
  assumes "update_loans today f i d = Inr d'" and keep: "\<And>x. lid (f x) = lid x" and "loans_pk d"
  shows "loans_pk d'"
proof -
  have "map lid (map (\<lambda>l. if lid l = i then UpdateOverdueLoans today (f l) else l) ls) = map lid ls"
    for ls
    by (induction ls) (simp_all add: keep)
  then have "map lid (loans d') = map lid (loans d)" and "auto_increment d' = auto_increment d"
    using assms(1) by (auto simp: update_loans_def Let_def split: if_splits)
  then show ?thesis
    using assms(3) by (simp add: loans_pk_ids)
qed

lemma update_books_pk: "update_books f i d = Inr d' \<Longrightarrow> loans_pk d' = loans_pk d"
  by (auto simp: update_books_def loans_pk_def split: option.splits if_splits)

lemma insert_loans_pk:
  assumes "insert_loans v d = Inr (d', row)" and "loans_pk d"
  shows "loans_pk d'"
proof -
  from assms(1) have "map lid (loans d') = map lid (loans d) @ [auto_increment d]"
    and "auto_increment d' = Suc (auto_increment d)"
    by (auto simp: insert_loans_def Let_def split: if_splits)
  then show ?thesis
    using assms(2) by (auto simp: loans_pk_ids less_Suc_eq)
qed

lemma call_procedure_pk:
  assumes "loans_pk d"
  shows "loans_pk (call_procedure today x d)"
proof (cases x)
  case (Call_ProcessLoan u b n)
  with assms show ?thesis
    by (auto simp: ProcessLoan_def Let_def update_books_pk split: sum.splits prod.splits
        dest: insert_loans_pk)
next
  case (Call_ReturnBook i r)
  with assms show ?thesis
    by (auto simp: ReturnBook_def Let_def update_books_pk split: sum.splits option.splits
        dest: update_loans_pk [rotated 2])
qed

lemma pg_update_loans_pk:
  assumes keep: "\<And>x. lid (f x) = lid x" and "loans_pk d"
  shows "loans_pk (pg_update_loans f i d)"
proof -
  have "map lid (map (\<lambda>l. if lid l = i then f l else l) ls) = map lid ls" for ls
    by (induction ls) (simp_all add: keep)
  then have "map lid (loans (pg_update_loans f i d)) = map lid (loans d)"
    by (simp add: pg_update_loans_def)
  then show ?thesis
    using assms(2) by (simp add: loans_pk_ids)
qed

lemma pg_update_books_pk [simp]: "loans_pk (pg_update_books f i d) = loans_pk d"
  by (simp add: loans_pk_def)

lemma pg_insert_loans_pk:
  assumes "pg_insert_loans v d = Inr (d', row)" and "loans_pk d"
  shows "loans_pk d'"
proof -
  from assms(1) have "map lid (loans d') = map lid (loans d) @ [auto_increment d]"
    and "auto_increment d' = Suc (auto_increment d)"
    by (auto simp: pg_insert_loans_def Let_def split: if_splits)
  then show ?thesis
    using assms(2) by (auto simp: loans_pk_ids less_Suc_eq)
qed

lemma call_storage_pk:
  assumes "loans_pk d"
  shows "loans_pk (call_storage today x d)"
proof (cases x)
  case (Call_createLoan v)
  with assms show ?thesis
    by (auto simp: createLoan_def split: sum.splits prod.splits dest: pg_insert_loans_pk)
next
  case (Call_returnBook i)
  with assms show ?thesis
    by (auto simp: returnBook_def Let_def pg_update_loans_pk split: list.splits)
next
  case (Call_renewLoan i)
  with assms show ?thesis
    by (simp add: renewLoan_def Let_def pg_update_loans_pk renewLoan_set_columns)
qed

lemma run_procedures_pk: "loans_pk d \<Longrightarrow> loans_pk (run_procedures ps d)"
proof (induction ps arbitrary: d)
  case Nil
  then show ?case by simp
next
  case (Cons a ps)
  obtain today x where a: "a = (today, x)" by (cases a)
  from Cons.prems have "loans_pk (call_procedure today x d)" by (rule call_procedure_pk)
  then have "loans_pk (run_procedures ps (call_procedure today x d))" by (rule Cons.IH)
  then show ?case by (simp add: a)
qed

lemma run_storage_pk: "loans_pk d \<Longrightarrow> loans_pk (run_storage ss d)"
proof (induction ss arbitrary: d)
  case Nil
  then show ?case by simp
next
  case (Cons a ss)
  obtain today x where a: "a = (today, x)" by (cases a)
  from Cons.prems have "loans_pk (call_storage today x d)" by (rule call_storage_pk)
  then have "loans_pk (run_storage ss (call_storage today x d))" by (rule Cons.IH)
  then show ?case by (simp add: a)
qed

section \<open>Returned loans\<close>

text \<open>
  C8. The claim: once a loan's status is returned, no operation changes its status,
  return_date or renewal_count. Nothing protects the columns of a returned loan. In the
  library loan 3 is returned, on 2023-09-05 (day 19617) with a fine of 1.50:
  renewLoan moves its due date 14 days on; returnBook stamps a new return date;
  the procedure ReturnBook with \<open>WHERE id = p_loan_id\<close> stamps a new return date and sets
  the fine to 0; and updateLoan with the status active makes it an active loan again.
\<close>

theorem returned_loan_is_modified_counterexample:
  "getLoan 3 library =
     Some \<lparr>lid = 3, user_id = ''alice'', book_id = 1, loan_date = 19600, due_date = 19614,
           return_date = Some 19617, renew_count = 0, status = Returned, fine = 150\<rparr>
   \<and> getLoan 3 (fst (renewLoan 19737 3 library)) =
     Some \<lparr>lid = 3, user_id = ''alice'', book_id = 1, loan_date = 19600, due_date = 19628,
           return_date = Some 19617, renew_count = 0, status = Returned, fine = 150\<rparr>
   \<and> getLoan 3 (fst (returnBook 19737 3 library)) =
     Some \<lparr>lid = 3, user_id = ''alice'', book_id = 1, loan_date = 19600, due_date = 19614,
           return_date = Some 19737, renew_count = 0, status = Returned, fine = 150\<rparr>
   \<and> getLoan 3 (fst (ReturnBook 19737 3 None library)) =
     Some \<lparr>lid = 3, user_id = ''alice'', book_id = 1, loan_date = 19600, due_date = 19614,
           return_date = Some 19737, renew_count = 0, status = Returned, fine = 0\<rparr>
   \<and> getLoan 3 (fst (updateLoan 3 (only_status Active) library)) =
     Some \<lparr>lid = 3, user_id = ''alice'', book_id = 1, loan_date = 19600, due_date = 19614,
           return_date = Some 19617, renew_count = 0, status = Active, fine = 150\<rparr>"
  by (simp add: renewLoan_def returnBook_def ReturnBook_def updateLoan_def updateLoan_set_def
      names_no_column_def statement_defs storage_defs library_defs)

lemma update_loans_keeps_returned:
  assumes "update_loans today f i d = Inr d'"
    and f: "\<And>x. status x = Returned \<Longrightarrow> status (f x) = Returned" "\<And>x. lid (f x) = lid x"
      "\<And>x. renew_count (f x) = renew_count x"
    and k: "k < length (loans d)" "status (loans d ! k) = Returned"
  shows "k < length (loans d') \<and> status (loans d' ! k) = Returned
       \<and> renew_count (loans d' ! k) = renew_count (loans d ! k)
       \<and> lid (loans d' ! k) = lid (loans d ! k)"
  using assms
  by (auto simp: update_loans_def Let_def UpdateOverdueLoans_def split: if_splits)

lemma pg_update_loans_keeps_returned:
  assumes f: "\<And>x. status x = Returned \<Longrightarrow> status (f x) = Returned" "\<And>x. lid (f x) = lid x"
      "\<And>x. renew_count (f x) = renew_count x"
    and k: "k < length (loans d)" "status (loans d ! k) = Returned"
  shows "k < length (loans (pg_update_loans f i d))
       \<and> status (loans (pg_update_loans f i d) ! k) = Returned
       \<and> renew_count (loans (pg_update_loans f i d) ! k) = renew_count (loans d ! k)
       \<and> lid (loans (pg_update_loans f i d) ! k) = lid (loans d ! k)"
  using assms by (simp add: pg_update_loans_def)

lemma call_procedure_keeps_returned:
  assumes k: "k < length (loans d)" "status (loans d ! k) = Returned"
  shows "k < length (loans (call_procedure today x d))
       \<and> status (loans (call_procedure today x d) ! k) = Returned
       \<and> renew_count (loans (call_procedure today x d) ! k) = renew_count (loans d ! k)
       \<and> lid (loans (call_procedure today x d) ! k) = lid (loans d ! k)"
proof (cases x)
  case (Call_ProcessLoan u b n)
  then show ?thesis using k
    by (auto simp: ProcessLoan_def Let_def nth_append split: sum.splits prod.splits
        dest!: update_books_loans insert_loans_loans)
next
  case (Call_ReturnBook i r)
  then show ?thesis using k
    by (auto simp: ReturnBook_def Let_def split: sum.splits option.splits
        dest!: update_books_loans dest: update_loans_keeps_returned [rotated 4])
qed

lemma call_storage_keeps_returned:
  assumes k: "k < length (loans d)" "status (loans d ! k) = Returned"
  shows "k < length (loans (call_storage today x d))
       \<and> status (loans (call_storage today x d) ! k) = Returned
       \<and> renew_count (loans (call_storage today x d) ! k) = renew_count (loans d ! k)
       \<and> lid (loans (call_storage today x d) ! k) = lid (loans d ! k)"
proof (cases x)
  case (Call_createLoan v)
  show ?thesis
  proof (cases "createLoan v d")
    case (Pair d1 res)
    show ?thesis
    proof (cases res)
      case (Inl e)
      with Pair have "d1 = d" by (simp add: createLoan_failure_changes_nothing)
      with Pair Call_createLoan k show ?thesis by simp
    next
      case (Inr newLoan)
      from createLoan_success [OF Pair [unfolded Inr]]
      have "loans d1 = loans d @ [newLoan]" by auto
      with Pair Call_createLoan k show ?thesis by (simp add: nth_append)
    qed
  qed
next
  case (Call_returnBook i)
  define g where "g = (\<lambda>l::loan. l\<lparr>status := Returned, return_date := Some today\<rparr>)"
  have "loans (fst (returnBook today i d)) = loans (pg_update_loans g i d)"
    by (simp add: returnBook_def Let_def g_def split: list.splits)
  moreover have "k < length (loans (pg_update_loans g i d))
       \<and> status (loans (pg_update_loans g i d) ! k) = Returned
       \<and> renew_count (loans (pg_update_loans g i d) ! k) = renew_count (loans d ! k)
       \<and> lid (loans (pg_update_loans g i d) ! k) = lid (loans d ! k)"
    by (rule pg_update_loans_keeps_returned) (simp_all add: g_def k)
  ultimately show ?thesis by (simp add: Call_returnBook)
next
  case (Call_renewLoan i)
  have "loans (fst (renewLoan today i d)) = loans (pg_update_loans renewLoan_set i d)"
    by (simp add: renewLoan_def Let_def)
  moreover have "k < length (loans (pg_update_loans renewLoan_set i d))
       \<and> status (loans (pg_update_loans renewLoan_set i d) ! k) = Returned
       \<and> renew_count (loans (pg_update_loans renewLoan_set i d) ! k) = renew_count (loans d ! k)
       \<and> lid (loans (pg_update_loans renewLoan_set i d) ! k) = lid (loans d ! k)"
    by (rule pg_update_loans_keeps_returned) (simp_all add: renewLoan_set_def k)
  ultimately show ?thesis by (simp add: Call_renewLoan)
qed

lemma run_procedures_keeps_returned:
  assumes "k < length (loans d)" and "status (loans d ! k) = Returned"
  shows "k < length (loans (run_procedures ps d))
       \<and> status (loans (run_procedures ps d) ! k) = Returned
       \<and> renew_count (loans (run_procedures ps d) ! k) = renew_count (loans d ! k)
       \<and> lid (loans (run_procedures ps d) ! k) = lid (loans d ! k)"
  using assms
proof (induction ps arbitrary: d)
  case Nil
  then show ?case by simp
next
  case (Cons a ps)
  obtain today x where a: "a = (today, x)" by (cases a)
  define e where "e = call_procedure today x d"
  from Cons.prems have step: "k < length (loans e) \<and> status (loans e ! k) = Returned
      \<and> renew_count (loans e ! k) = renew_count (loans d ! k)
      \<and> lid (loans e ! k) = lid (loans d ! k)"
    unfolding e_def by (rule call_procedure_keeps_returned)
  then have "k < length (loans (run_procedures ps e))
      \<and> status (loans (run_procedures ps e) ! k) = Returned
      \<and> renew_count (loans (run_procedures ps e) ! k) = renew_count (loans e ! k)
      \<and> lid (loans (run_procedures ps e) ! k) = lid (loans e ! k)"
    using Cons.IH by blast
  with step show ?case by (simp add: a e_def)
qed

lemma run_storage_keeps_returned:
  assumes "k < length (loans d)" and "status (loans d ! k) = Returned"
  shows "k < length (loans (run_storage ss d))
       \<and> status (loans (run_storage ss d) ! k) = Returned
       \<and> renew_count (loans (run_storage ss d) ! k) = renew_count (loans d ! k)
       \<and> lid (loans (run_storage ss d) ! k) = lid (loans d ! k)"
  using assms
proof (induction ss arbitrary: d)
  case Nil
  then show ?case by simp
next
  case (Cons a ss)
  obtain today x where a: "a = (today, x)" by (cases a)
  define e where "e = call_storage today x d"
  from Cons.prems have step: "k < length (loans e) \<and> status (loans e ! k) = Returned
      \<and> renew_count (loans e ! k) = renew_count (loans d ! k)
      \<and> lid (loans e ! k) = lid (loans d ! k)"
    unfolding e_def by (rule call_storage_keeps_returned)
  then have "k < length (loans (run_storage ss e))
      \<and> status (loans (run_storage ss e) ! k) = Returned
      \<and> renew_count (loans (run_storage ss e) ! k) = renew_count (loans e ! k)
      \<and> lid (loans (run_storage ss e) ! k) = lid (loans e ! k)"
    using Cons.IH by blast
  with step show ?case by (simp add: a e_def)
qed

text \<open>
  C8, as amended. A loan whose status is returned keeps its status and its renewal_count
  through every sequence of createLoan, returnLoan and renewLoan operations, run as the
  stored procedures of schema.sql or as the methods of the storage layer: the row stays
  where it is in the table, with its id, with status returned and with the renew_count
  it had. Its return_date, due_date and fine are not protected: renewLoan moves the due
  date of a returned loan and returnLoan stamps a new return date on it. updateLoan can
  overwrite every column, the status included.
\<close>

theorem returned_status_is_kept:
  assumes "k < length (loans d)" and "status (loans d ! k) = Returned"
  shows "(k < length (loans (run_procedures ps d))
          \<and> status (loans (run_procedures ps d) ! k) = Returned
          \<and> renew_count (loans (run_procedures ps d) ! k) = renew_count (loans d ! k)
          \<and> lid (loans (run_procedures ps d) ! k) = lid (loans d ! k))
       \<and> (k < length (loans (run_storage ss d))
          \<and> status (loans (run_storage ss d) ! k) = Returned
          \<and> renew_count (loans (run_storage ss d) ! k) = renew_count (loans d ! k)
          \<and> lid (loans (run_storage ss d) ! k) = lid (loans d ! k))"
  using run_procedures_keeps_returned [OF assms] run_storage_keeps_returned [OF assms]
  by blast

text \<open>
  Loan 3 is the third row of the library. The procedures return it again and lend its
  book anew; the storage layer renews it, returns it again and lends its book anew.
\<close>

theorem returned_status_is_kept_witness:
  "2 < length (loans library) \<and> status (loans library ! 2) = Returned
   \<and> lid (loans library ! 2) = 3 \<and> renew_count (loans library ! 2) = 0
   \<and> status (loans (run_procedures [(19738, Call_ReturnBook 3 None),
         (19738, Call_ProcessLoan ''alice'' 1 14)] library) ! 2) = Returned
   \<and> renew_count (loans (run_procedures [(19738, Call_ReturnBook 3 None),
         (19738, Call_ProcessLoan ''alice'' 1 14)] library) ! 2) = 0
   \<and> lid (loans (run_procedures [(19738, Call_ReturnBook 3 None),
         (19738, Call_ProcessLoan ''alice'' 1 14)] library) ! 2) = 3
   \<and> status (loans (run_storage [(19737, Call_renewLoan 3), (19737, Call_returnBook 3),
         (19738, Call_createLoan (borrow ''alice'' 1))] library) ! 2) = Returned
   \<and> renew_count (loans (run_storage [(19737, Call_renewLoan 3), (19737, Call_returnBook 3),
         (19738, Call_createLoan (borrow ''alice'' 1))] library) ! 2) = 0
   \<and> lid (loans (run_storage [(19737, Call_renewLoan 3), (19737, Call_returnBook 3),
         (19738, Call_createLoan (borrow ''alice'' 1))] library) ! 2) = 3"
proof -
  have row: "2 < length (loans library)" "status (loans library ! 2) = Returned"
    and id: "lid (loans library ! 2) = 3" and rc: "renew_count (loans library ! 2) = 0"
    by (simp_all add: library_def)
  from returned_status_is_kept [OF row,
      of "[(19738, Call_ReturnBook 3 None), (19738, Call_ProcessLoan ''alice'' 1 14)]"
         "[(19737, Call_renewLoan 3), (19737, Call_returnBook 3),
           (19738, Call_createLoan (borrow ''alice'' 1))]"]
  show ?thesis unfolding id rc using row by blast
qed

section \<open>Borrowing and returning at once\<close>

lemma ProcessLoan_then_ReturnBook:
  assumes inv: "inventory_ok d" and pk: "loans_pk d"
    and ok: "ProcessLoan today u b n d = (d1, Inr ())"
  shows "\<exists>d2. ReturnBook today' (auto_increment d) r d1 = (d2, Inr ())
           \<and> (\<forall>i. map_option available_copies (books d2 i) = map_option available_copies (books d i))"
proof -
  define row where "row = \<lparr>lid = auto_increment d, user_id = u, book_id = b, loan_date = today,
             due_date = today + n, return_date = None, renew_count = 0, status = Active,
             fine = 0\<rparr>"
  from ProcessLoan_success [OF ok] obtain bk where
    bk: "books d b = Some bk" and pos: "0 < available_copies bk"
    and chk: "books_checks (ProcessLoan_set bk)"
    and d1: "d1 = d\<lparr>loans := loans d @ [row],
         auto_increment := Suc (auto_increment d),
         books := (books d)(b \<mapsto> ProcessLoan_set bk)\<rparr>"
    unfolding row_def by blast
  from pk have fresh: "list_all (\<lambda>l. lid l < auto_increment d) (loans d)"
    by (simp add: loans_pk_def)
  from inv bk have le: "available_copies bk \<le> total_copies bk"
    by (simp add: inventory_ok_def)
  have restored: "books_checks (return_set (ProcessLoan_set bk))"
    using chk pos le by (simp add: books_checks_def return_set_def ProcessLoan_set_def Let_def)
  have found: "find (\<lambda>l. lid l = auto_increment d \<and> status l = Active) (loans d1) = Some row"
    by (simp add: d1 fresh_find [OF fresh]) (simp add: row_def)
  define g where "g = (\<lambda>x::loan. x\<lparr>return_date := Some (case r of None \<Rightarrow> today' | Some x \<Rightarrow> x),
      status := Returned,
      fine := late_fine (case r of None \<Rightarrow> today' | Some x \<Rightarrow> x) (Some (due_date row))\<rparr>)"
  have upd: "update_loans today' g (lid row) d1 = Inr (d1\<lparr>loans := loans d @ [g row]\<rparr>)"
  proof (rule update_loans_last)
    show "loans d1 = loans d @ [row]" by (simp add: d1)
    show "list_all (\<lambda>l. lid l < lid row) (loans d)" using fresh by (simp add: row_def)
  qed (simp_all add: g_def row_def)
  have lid_row: "lid row = auto_increment d" by (simp add: row_def)
  have inc: "update_books return_set (book_id row) (d1\<lparr>loans := loans d @ [g row]\<rparr>)
      = Inr (d1\<lparr>loans := loans d @ [g row],
                books := (books d)(b \<mapsto> return_set (ProcessLoan_set bk))\<rparr>)"
    using restored by (simp add: update_books_def d1 row_def)
  have "ReturnBook today' (auto_increment d) r d1
      = (d1\<lparr>loans := loans d @ [g row],
            books := (books d)(b \<mapsto> return_set (ProcessLoan_set bk))\<rparr>, Inr ())"
    using found upd inc unfolding g_def lid_row by (rule ReturnBook_found)
  moreover have "\<forall>i. map_option available_copies
        (books (d1\<lparr>loans := loans d @ [g row],
                  books := (books d)(b \<mapsto> return_set (ProcessLoan_set bk))\<rparr>) i)
      = map_option available_copies (books d i)"
    using bk by (simp add: return_set_def ProcessLoan_set_def Let_def)
  ultimately show ?thesis by blast
qed

lemma createLoan_then_returnBook:
  assumes pk: "loans_pk d" and ok: "createLoan v d = (d1, Inr newLoan)"
  shows "\<exists>d2 l. returnBook today' (lid newLoan) d1 = (d2, Inr l)
           \<and> (\<forall>i. map_option available_copies (books d2 i) = map_option available_copies (books d i))"
proof -
  from createLoan_success [OF ok] obtain bk where
    bk: "books d (bookId v) = Some bk"
    and new: "newLoan = (loan_values v)\<lparr>lid := auto_increment d\<rparr>"
    and d1: "d1 = d\<lparr>loans := loans d @ [newLoan],
         auto_increment := Suc (auto_increment d),
         books := (books d)(bookId v \<mapsto> createLoan_set bk)\<rparr>"
    by blast
  have lid_new: "lid newLoan = auto_increment d" and book_new: "book_id newLoan = bookId v"
    by (simp_all add: new loan_values_def)
  from pk have fresh: "list_all (\<lambda>l. lid l < lid newLoan) (loans d)"
    by (simp add: loans_pk_def lid_new)
  define g where "g = (\<lambda>l::loan. l\<lparr>status := Returned, return_date := Some today'\<rparr>)"
  have keep: "lid (g newLoan) = lid newLoan" "book_id (g newLoan) = bookId v"
    by (simp_all add: g_def book_new)
  define e where "e = pg_update_loans g (lid newLoan) d1"
  have le: "loans e = loans d @ [g newLoan]"
    by (simp add: e_def pg_update_loans_def d1 fresh_map [OF fresh])
  have be: "books e = (books d)(bookId v \<mapsto> createLoan_set bk)"
    by (simp add: e_def d1)
  have ret: "returning (lid newLoan) e = [g newLoan]"
    by (simp add: returning_def le fresh_filter [OF fresh] keep)
  have "returnBook today' (lid newLoan) d1
      = (pg_update_books return_set (bookId v) e, Inr (g newLoan))"
    by (simp add: returnBook_def Let_def g_def [symmetric] e_def [symmetric] ret keep)
  moreover have "\<forall>i. map_option available_copies
        (books (pg_update_books return_set (bookId v) e) i)
      = map_option available_copies (books d i)"
    using bk by (simp add: pg_update_books_def be return_set_def createLoan_set_def Let_def)
  ultimately show ?thesis by blast
qed

text \<open>
  C9. From a database in which the ids of the loans are distinct and below the counter of
  the table: whenever createLoan succeeds, returnLoan on the loan just created succeeds
  too and leaves every book with exactly the available_copies it had before the
  createLoan. This holds for ProcessLoan followed by ReturnBook on a database that
  satisfies the CHECK constraints of books (the new loan has the id
  \<open>auto_increment d\<close>), and for DatabaseStorage.createLoan followed by
  DatabaseStorage.returnBook on the id of the loan that createLoan returned.
\<close>

theorem createLoan_then_returnLoan_restores_copies:
  assumes "loans_pk d"
  shows "(inventory_ok d \<and> ProcessLoan today u b n d = (d1, Inr ()) \<longrightarrow>
            (\<exists>d2. ReturnBook today' (auto_increment d) r d1 = (d2, Inr ())
               \<and> (\<forall>i. map_option available_copies (books d2 i)
                        = map_option available_copies (books d i))))
       \<and> (createLoan v d = (d1', Inr newLoan) \<longrightarrow>
            (\<exists>d2 l. returnBook today' (lid newLoan) d1' = (d2, Inr l)
               \<and> (\<forall>i. map_option available_copies (books d2 i)
                        = map_option available_copies (books d i))))"
  using assms ProcessLoan_then_ReturnBook createLoan_then_returnBook by blast

text \<open>
  In the library Alice borrows book 1 and brings it back three days later. Through the
  storage layer she also borrows book 2, of which no copy is left, and brings it back:
  the count goes from 0 to -1 and back to 0.
\<close>

theorem createLoan_then_returnLoan_restores_copies_witness:
  "inventory_ok library \<and> loans_pk library
   \<and> snd (ProcessLoan 19737 ''alice'' 1 14 library) = Inr ()
   \<and> (\<exists>d2. ReturnBook 19740 (auto_increment library) None
              (fst (ProcessLoan 19737 ''alice'' 1 14 library)) = (d2, Inr ())
         \<and> map_option available_copies (books d2 1) = Some 1)
   \<and> snd (createLoan (borrow ''alice'' 1) library) = Inr
         \<lparr>lid = 4, user_id = ''alice'', book_id = 1, loan_date = 19737, due_date = 19751,
          return_date = None, renew_count = 0, status = Active, fine = 0\<rparr>
   \<and> (\<exists>d2 l. returnBook 19740 4 (fst (createLoan (borrow ''alice'' 1) library)) = (d2, Inr l)
         \<and> map_option available_copies (books d2 1) = Some 1)
   \<and> snd (createLoan (borrow ''alice'' 2) library) = Inr
         \<lparr>lid = 4, user_id = ''alice'', book_id = 2, loan_date = 19737, due_date = 19751,
          return_date = None, renew_count = 0, status = Active, fine = 0\<rparr>
   \<and> (\<exists>d2 l. returnBook 19740 4 (fst (createLoan (borrow ''alice'' 2) library)) = (d2, Inr l)
         \<and> map_option available_copies (books d2 2) = Some 0)"
proof -
  have before: "map_option available_copies (books library 1) = Some 1"
    "map_option available_copies (books library 2) = Some 0"
    by (simp_all add: library_def)
  have p: "snd (ProcessLoan 19737 ''alice'' 1 14 library) = Inr ()"
    by (simp add: ProcessLoan_def statement_defs library_defs)
  then have p': "ProcessLoan 19737 ''alice'' 1 14 library
      = (fst (ProcessLoan 19737 ''alice'' 1 14 library), Inr ())"
    by (simp add: prod_eq_iff)
  have c: "snd (createLoan (borrow ''alice'' 1) library) = Inr
         \<lparr>lid = 4, user_id = ''alice'', book_id = 1, loan_date = 19737, due_date = 19751,
          return_date = None, renew_count = 0, status = Active, fine = 0\<rparr>"
    by (simp add: createLoan_def storage_defs library_defs)
  then have c': "createLoan (borrow ''alice'' 1) library
      = (fst (createLoan (borrow ''alice'' 1) library), Inr
         \<lparr>lid = 4, user_id = ''alice'', book_id = 1, loan_date = 19737, due_date = 19751,
          return_date = None, renew_count = 0, status = Active, fine = 0\<rparr>)"
    by (simp add: prod_eq_iff)
  have e: "snd (createLoan (borrow ''alice'' 2) library) = Inr
         \<lparr>lid = 4, user_id = ''alice'', book_id = 2, loan_date = 19737, due_date = 19751,
          return_date = None, renew_count = 0, status = Active, fine = 0\<rparr>"
    by (simp add: createLoan_def storage_defs library_defs)
  then have e': "createLoan (borrow ''alice'' 2) library
      = (fst (createLoan (borrow ''alice'' 2) library), Inr
         \<lparr>lid = 4, user_id = ''alice'', book_id = 2, loan_date = 19737, due_date = 19751,
          return_date = None, renew_count = 0, status = Active, fine = 0\<rparr>)"
    by (simp add: prod_eq_iff)
  note round = createLoan_then_returnLoan_restores_copies [OF library_pk]
  from round [of 19737 "''alice''" 1 14 "fst (ProcessLoan 19737 ''alice'' 1 14 library)"] p'
    library_inventory
  have sql: "\<exists>d2. ReturnBook 19740 (auto_increment library) None
              (fst (ProcessLoan 19737 ''alice'' 1 14 library)) = (d2, Inr ())
         \<and> map_option available_copies (books d2 1) = Some 1"
    using before(1) by metis
  from round [of _ _ _ _ _ _ _ "borrow ''alice'' 1" "fst (createLoan (borrow ''alice'' 1) library)"] c'
  have ts: "\<exists>d2 l. returnBook 19740 4 (fst (createLoan (borrow ''alice'' 1) library)) = (d2, Inr l)
         \<and> map_option available_copies (books d2 1) = Some 1"
    using before(1) by (metis loan.select_convs(1))
  from round [of _ _ _ _ _ _ _ "borrow ''alice'' 2" "fst (createLoan (borrow ''alice'' 2) library)"] e'
  have ts2: "\<exists>d2 l. returnBook 19740 4 (fst (createLoan (borrow ''alice'' 2) library)) = (d2, Inr l)
         \<and> map_option available_copies (books d2 2) = Some 0"
    using before(2) by (metis loan.select_convs(1))
  from library_inventory library_pk p c e sql ts ts2 show ?thesis by blast
qed

section \<open>Deleting a book that is on loan\<close>

lemma prevent_book_deletion_raises:
  assumes "l \<in> set (loans d)" and "book_id l = i" and "status l = Active \<or> status l = Overdue"
  shows "prevent_book_deletion i d = Some (Signal ''Cannot delete book with active loans'')"
proof -
  have "l \<in> set (filter (\<lambda>l. book_id l = i \<and> (status l = Active \<or> status l = Overdue)) (loans d))"
    using assms by simp
  then have "filter (\<lambda>l. book_id l = i \<and> (status l = Active \<or> status l = Overdue)) (loans d) \<noteq> []"
    by (metis empty_iff list.set(1))
  then show ?thesis
    by (simp add: prevent_book_deletion_def)
qed

text \<open>
  C10. A book with at least one loan whose status is active or overdue cannot be deleted:
  deleteBook fails with the error of the trigger prevent_book_deletion and leaves the
  whole database, the book row included, as it was.
\<close>

theorem deleteBook_with_open_loan_fails:
  assumes "books d i = Some b"
    and "l \<in> set (loans d)" and "book_id l = i"
    and "status l = Active \<or> status l = Overdue"
  shows "deleteBook i d = (d, Inl (Signal ''Cannot delete book with active loans''))"
  using assms prevent_book_deletion_raises [of l d i]
  by (simp add: deleteBook_def delete_books_def)

text \<open>Book 2 of the library is out on the overdue loan 1.\<close>

theorem deleteBook_with_open_loan_fails_witness:
  "books library 2 = Some \<lparr>total_copies = 2, available_copies = 0, bstatus = Checked_out\<rparr>
   \<and> hd (loans library) \<in> set (loans library)
   \<and> book_id (hd (loans library)) = 2 \<and> status (hd (loans library)) = Overdue
   \<and> deleteBook 2 library = (library, Inl (Signal ''Cannot delete book with active loans''))"
proof -
  have b2: "books library 2 = Some \<lparr>total_copies = 2, available_copies = 0, bstatus = Checked_out\<rparr>"
    by (simp add: library_def)
  have l1: "hd (loans library) \<in> set (loans library)"
    and on: "book_id (hd (loans library)) = 2" and late: "status (hd (loans library)) = Overdue"
    by (simp_all add: library_def)
  from deleteBook_with_open_loan_fails [OF b2 l1 on] late b2 l1 on show ?thesis by simp
qed

end
